theory Spec2Isabelle
  imports Main "HOL-Library.Sublist"
begin

section \<open>The filesystem as the script sees it\<close>

text \<open>
  \<^verbatim>\<open>fix_file_permissions.py\<close> repairs the directory \<^verbatim>\<open>cogs\<close> that sits beside the
  script. The model keeps what the script can observe: a tree of regular files and
  directories, each with its permission bits. A regular file carries its text and a flag
  telling whether its bytes decode as UTF-8; the text of a file that does not decode is what
  \<^verbatim>\<open>errors='ignore'\<close> leaves of it. A directory lists its entries in the order
  \<^verbatim>\<open>os.listdir\<close> reports them. Symbolic links, FIFOs and devices are outside the model,
  and \<^verbatim>\<open>os.rename\<close> has its POSIX meaning (an existing regular file at the destination
  is replaced). One HOL character stands for one character of a Python \<^verbatim>\<open>str\<close>.
\<close>

type_synonym path = string
type_synonym mode = nat

datatype node = File mode string bool | Dir mode "(string \<times> node) list"

type_synonym entries = "(string \<times> node) list"

datatype error =
  IsADirectoryError | NotADirectoryError | FileExistsError | FileNotFoundError
  | PermissionError | UnicodeDecodeError | IndexError | OSError

text \<open>
  The environment of one run: where the script lives, the process umask, which system
  calls fail on which path, and the three template texts the script writes verbatim.
\<close>

record env =
  current_dir :: path
  umask :: nat
  chmod_fails :: "path \<Rightarrow> bool"
  listdir_fails :: "path \<Rightarrow> bool"
  open_fails :: "path \<Rightarrow> bool"
  read_fails :: "path \<Rightarrow> bool"
  rename_fails :: "path \<Rightarrow> bool"
  mkdir_fails :: "path \<Rightarrow> bool"
  append_fails :: "path \<Rightarrow> bool"
  user_commands_text :: string
  admin_commands_text :: string
  sample_cog_text :: string

text \<open>An environment in which no system call fails.\<close>

definition quiet :: "path \<Rightarrow> nat \<Rightarrow> string \<Rightarrow> string \<Rightarrow> string \<Rightarrow> env" where
  "quiet cur um ut at st =
     \<lparr>current_dir = cur, umask = um,
      chmod_fails = (\<lambda>_. False), listdir_fails = (\<lambda>_. False), open_fails = (\<lambda>_. False),
      read_fails = (\<lambda>_. False), rename_fails = (\<lambda>_. False), mkdir_fails = (\<lambda>_. False),
      append_fails = (\<lambda>_. False),
      user_commands_text = ut, admin_commands_text = at, sample_cog_text = st\<rparr>"

text \<open>\<^verbatim>\<open>0o755\<close>, \<^verbatim>\<open>0o644\<close>, and the modes \<^verbatim>\<open>0o777\<close> and \<^verbatim>\<open>0o666\<close> cut by the umask.\<close>

definition mode_755 :: mode where "mode_755 = 493"
definition mode_644 :: mode where "mode_644 = 420"

definition new_dir_mode :: "env \<Rightarrow> mode" where
  "new_dir_mode E = 511 - and 511 (umask E)"

definition new_file_mode :: "env \<Rightarrow> mode" where
  "new_file_mode E = 438 - and 438 (umask E)"

definition join :: "path \<Rightarrow> string \<Rightarrow> path" where
  "join d n = d @ ''/'' @ n"

definition path_exists :: "entries \<Rightarrow> string \<Rightarrow> bool" where
  "path_exists es n = (map_of es n \<noteq> None)"

definition isdir :: "entries \<Rightarrow> string \<Rightarrow> bool" where
  "isdir es n = (case map_of es n of Some (Dir _ _) \<Rightarrow> True | _ \<Rightarrow> False)"

definition isfile :: "entries \<Rightarrow> string \<Rightarrow> bool" where
  "isfile es n = (case map_of es n of Some (File _ _ _) \<Rightarrow> True | _ \<Rightarrow> False)"

definition set_entry :: "entries \<Rightarrow> string \<Rightarrow> node \<Rightarrow> entries" where
  "set_entry es n x = map (\<lambda>(k, y). if k = n then (k, x) else (k, y)) es"

definition move_entry :: "entries \<Rightarrow> string \<Rightarrow> string \<Rightarrow> entries" where
  "move_entry es old new =
     map (\<lambda>(k, y). if k = old then (new, y) else (k, y)) (filter (\<lambda>(k, y). k \<noteq> new) es)"

text \<open>\<^verbatim>\<open>os.rename\<close> inside one directory.\<close>

definition rename :: "entries \<Rightarrow> string \<Rightarrow> string \<Rightarrow> error + entries" where
  "rename es old new =
     (case map_of es old of
        None \<Rightarrow> Inl FileNotFoundError
      | Some (File m c v) \<Rightarrow>
          (if old = new then Inr es
           else case map_of es new of
                  Some (Dir _ _) \<Rightarrow> Inl IsADirectoryError
                | _ \<Rightarrow> Inr (move_entry es old new))
      | Some (Dir m ds) \<Rightarrow>
          (if old = new then Inr es
           else case map_of es new of
                  Some (File _ _ _) \<Rightarrow> Inl NotADirectoryError
                | Some (Dir _ (_ # _)) \<Rightarrow> Inl OSError
                | _ \<Rightarrow> Inr (move_entry es old new)))"

text \<open>
  \<^verbatim>\<open>os.makedirs(p, exist_ok=True)\<close> for a name in the directory holding the script. The
  \<^verbatim>\<open>mkdir\<close> it makes can fail, for instance when that directory is not writable.
\<close>

definition makedirs :: "env \<Rightarrow> entries \<Rightarrow> string \<Rightarrow> error option \<times> entries" where
  "makedirs E es n =
     (case map_of es n of
        None \<Rightarrow>
          if mkdir_fails E (join (current_dir E) n) then (Some PermissionError, es)
          else (None, es @ [(n, Dir (new_dir_mode E) [])])
      | Some (Dir _ _) \<Rightarrow> (None, es)
      | Some (File _ _ _) \<Rightarrow> (Some FileExistsError, es))"

section \<open>DirectoryBootstrapper\<close>

text \<open>
  \<^verbatim>\<open>ensure_cogs_directory\<close>; the state is the directory holding the script, where the
  paths \<^verbatim>\<open>cogs_dir\<close> and \<^verbatim>\<open>cogs_dir + '.bak'\<close> are the entries \<^verbatim>\<open>cogs\<close> and
  \<^verbatim>\<open>cogs.bak\<close>. Neither \<^verbatim>\<open>os.makedirs\<close> nor \<^verbatim>\<open>os.rename\<close> is inside a \<^verbatim>\<open>try\<close>: an
  exception of either leaves the function, with the filesystem as it was when raised.
\<close>

definition ensure_cogs_directory :: "env \<Rightarrow> entries \<Rightarrow> error option \<times> entries" where
  "ensure_cogs_directory E fs =
     (case (if \<not> path_exists fs ''cogs'' then makedirs E fs ''cogs'' else (None, fs)) of
        (Some e, fs1) \<Rightarrow> (Some e, fs1)
      | (None, fs1) \<Rightarrow>
          if \<not> isdir fs1 ''cogs'' then
            (if rename_fails E (join (current_dir E) ''cogs'') then (Some PermissionError, fs1)
             else case rename fs1 ''cogs'' ''cogs.bak'' of
                    Inl e \<Rightarrow> (Some e, fs1)
                  | Inr fs2 \<Rightarrow> makedirs E fs2 ''cogs'')
          else (None, fs1))"

section \<open>PermissionNormalizer\<close>

text \<open>
  \<^verbatim>\<open>fix_permissions\<close>. The first \<^verbatim>\<open>try\<close> guards the directory's own
  \<^verbatim>\<open>chmod\<close>; the second guards the whole loop, so an exception inside the loop ends the
  loop. The directory is given by its path, its mode and its entries; \<open>fix_items\<close> is
  the loop over the entries still to visit and reports whether it raised.
\<close>

fun fix_permissions :: "env \<Rightarrow> path \<Rightarrow> mode \<Rightarrow> entries \<Rightarrow> mode \<times> entries"
  and fix_items :: "env \<Rightarrow> path \<Rightarrow> entries \<Rightarrow> error option \<times> entries" where
  "fix_permissions E directory m es =
     (let m' = (if chmod_fails E directory then m else mode_755)
      in if listdir_fails E directory then (m', es)
         else (m', snd (fix_items E directory es)))"
| "fix_items E directory [] = (None, [])"
| "fix_items E directory ((item, File m c v) # rest) =
     (if chmod_fails E (join directory item) then (Some PermissionError, (item, File m c v) # rest)
      else case fix_items E directory rest of
             (r, rest') \<Rightarrow> (r, (item, File mode_644 c v) # rest'))"
| "fix_items E directory ((item, Dir m es) # rest) =
     (case fix_permissions E (join directory item) m es of
        (m', es') \<Rightarrow>
          (case fix_items E directory rest of
             (r, rest') \<Rightarrow> (r, (item, Dir m' es') # rest')))"

text \<open>Every directory of a tree has mode \<^verbatim>\<open>0o755\<close> and every regular file \<^verbatim>\<open>0o644\<close>.\<close>

fun modes_ok :: "node \<Rightarrow> bool"
  and modes_ok_all :: "entries \<Rightarrow> bool" where
  "modes_ok (File m c v) = (m = mode_644)"
| "modes_ok (Dir m es) = (m = mode_755 \<and> modes_ok_all es)"
| "modes_ok_all [] = True"
| "modes_ok_all ((item, x) # rest) = (modes_ok x \<and> modes_ok_all rest)"

text \<open>
  A tree with its permission bits erased: what is left are the names, in their order, the
  nesting, and the text and the decodability of every regular file.
\<close>

fun erase_modes :: "node \<Rightarrow> node"
  and erase_modes_all :: "entries \<Rightarrow> entries" where
  "erase_modes (File m c v) = File 0 c v"
| "erase_modes (Dir m es) = Dir 0 (erase_modes_all es)"
| "erase_modes_all [] = []"
| "erase_modes_all ((item, x) # rest) = (item, erase_modes x) # erase_modes_all rest"


section \<open>Strings as Python handles them\<close>

definition startswith :: "string \<Rightarrow> string \<Rightarrow> bool" where
  "startswith s p = prefix p s"

definition endswith :: "string \<Rightarrow> string \<Rightarrow> bool" where
  "endswith s p = suffix p s"

text \<open>\<open>contains p s\<close> is Python's \<^verbatim>\<open>p in s\<close>.\<close>

fun contains :: "string \<Rightarrow> string \<Rightarrow> bool" where
  "contains p [] = (p = [])"
| "contains p (x # xs) = (prefix p (x # xs) \<or> contains p xs)"


text \<open>
  A file opened in text mode is read with universal newlines: \<^verbatim>\<open>\r\n\<close> and a lone
  \<^verbatim>\<open>\r\<close> both arrive as \<^verbatim>\<open>\n\<close>.
\<close>

fun universal_newlines :: "string \<Rightarrow> string" where
  "universal_newlines [] = []"
| "universal_newlines [x] = (if x = CHR 0x0D then [CHR ''\<newline>''] else [x])"
| "universal_newlines (x # y # xs) =
     (if x = CHR 0x0D then
        (if y = CHR ''\<newline>'' then CHR ''\<newline>'' # universal_newlines xs
         else CHR ''\<newline>'' # universal_newlines (y # xs))
      else x # universal_newlines (y # xs))"

text \<open>\<^verbatim>\<open>s.split(sep)\<close> for a separator that is not empty.\<close>

function py_split :: "string \<Rightarrow> string \<Rightarrow> string list" where
  "py_split sep [] = [[]]"
| "py_split sep (x # xs) =
     (if sep \<noteq> [] \<and> prefix sep (x # xs) then [] # py_split sep (drop (length sep) (x # xs))
      else case py_split sep xs of
             [] \<Rightarrow> [[x]]
           | l # ls \<Rightarrow> (x # l) # ls)"
  by pat_completeness auto
termination
  by (relation "measure (\<lambda>(sep, s). length s)") auto

text \<open>The characters below 256 that \<^verbatim>\<open>str.isspace\<close> accepts, and \<^verbatim>\<open>str.strip\<close>.\<close>

definition is_space :: "char \<Rightarrow> bool" where
  "is_space c = ((of_char c :: nat) \<in> {9, 10, 11, 12, 13, 28, 29, 30, 31, 32, 133, 160})"

definition strip :: "string \<Rightarrow> string" where
  "strip s = rev (dropWhile is_space (rev (dropWhile is_space s)))"

definition index :: "'a list \<Rightarrow> nat \<Rightarrow> error + 'a" where
  "index xs i = (if i < length xs then Inr (xs ! i) else Inl IndexError)"

section \<open>PackageMarkerInitializer and ContentClassifier\<close>

definition init_text :: string where
  "init_text = ''# This file makes the directory a Python package\<newline>''"

text \<open>\<^verbatim>\<open>open(p, 'w')\<close> on a name that does not exist yet, followed by one write.\<close>

definition create_file :: "env \<Rightarrow> entries \<Rightarrow> string \<Rightarrow> string \<Rightarrow> entries" where
  "create_file E es n txt = es @ [(n, File (new_file_mode E) txt True)]"

text \<open>The test on the first 500 characters read.\<close>

definition looks_like_python :: "string \<Rightarrow> bool" where
  "looks_like_python c =
     (let content = take 500 (universal_newlines c)
      in contains ''import'' content \<and> (contains ''def'' content \<or> contains ''class'' content))"

text \<open>
  The loop of \<^verbatim>\<open>ensure_python_files\<close> over the names \<^verbatim>\<open>os.listdir\<close> returned before the
  loop started. \<^verbatim>\<open>open\<close> stands outside the \<^verbatim>\<open>try\<close>, so its failure leaves the
  function; a failing \<^verbatim>\<open>read\<close> or \<^verbatim>\<open>os.rename\<close> is caught and the loop goes on.
\<close>

fun ensure_python_loop :: "env \<Rightarrow> path \<Rightarrow> string list \<Rightarrow> entries \<Rightarrow> error option \<times> entries" where
  "ensure_python_loop E directory [] es = (None, es)"
| "ensure_python_loop E directory (item # items) es =
     (case map_of es item of
        Some (File m c v) \<Rightarrow>
          if \<not> startswith item ''__'' \<and> \<not> endswith item ''.py'' then
            (if open_fails E (join directory item) then (Some PermissionError, es)
             else if read_fails E (join directory item) then ensure_python_loop E directory items es
             else if looks_like_python c then
               (if rename_fails E (join directory item) then ensure_python_loop E directory items es
                else case rename es item (item @ ''.py'') of
                       Inl e \<Rightarrow> ensure_python_loop E directory items es
                     | Inr es' \<Rightarrow> ensure_python_loop E directory items es')
             else ensure_python_loop E directory items es)
          else ensure_python_loop E directory items es
      | _ \<Rightarrow> ensure_python_loop E directory items es)"

definition ensure_python_files :: "env \<Rightarrow> path \<Rightarrow> entries \<Rightarrow> error option \<times> entries" where
  "ensure_python_files E directory es =
     (let es1 = (if \<not> path_exists es ''__init__.py''
                 then create_file E es ''__init__.py'' init_text else es)
      in if listdir_fails E directory then (Some PermissionError, es1)
         else ensure_python_loop E directory (map fst es1) es1)"

text \<open>
  \<open>classified es item\<close>: the loop, meeting \<open>item\<close> in the directory \<open>es\<close> with no
  system call failing, renames it. The rename itself fails when a directory has the new
  name.
\<close>

definition classified :: "entries \<Rightarrow> string \<Rightarrow> bool" where
  "classified es item =
     (case map_of es item of
        Some (File m c v) \<Rightarrow>
          \<not> startswith item ''__'' \<and> \<not> endswith item ''.py'' \<and> looks_like_python c
          \<and> \<not> isdir es (item @ ''.py'')
      | _ \<Rightarrow> False)"

section \<open>StructuralLinter and provisioning\<close>

definition copy_existing_cogs :: "env \<Rightarrow> entries \<Rightarrow> entries" where
  "copy_existing_cogs E es =
     (let es1 = (if \<not> path_exists es ''user_commands.py''
                 then create_file E es ''user_commands.py'' (user_commands_text E) else es)
      in if \<not> path_exists es1 ''admin_commands.py''
         then create_file E es1 ''admin_commands.py'' (admin_commands_text E) else es1)"

text \<open>The search for the class name, over the lines of the content.\<close>

fun find_cog_name :: "string list \<Rightarrow> error + string option" where
  "find_cog_name [] = Inr None"
| "find_cog_name (line # lines) =
     (if contains ''class'' line \<and> contains ''(commands.Cog)'' line then
        (case index (py_split ''class'' line) 1 of
           Inl e \<Rightarrow> Inl e
         | Inr seg \<Rightarrow>
             (case index (py_split ''('' seg) 0 of
                Inl e \<Rightarrow> Inl e
              | Inr nm \<Rightarrow> Inr (Some (strip nm))))
      else find_cog_name lines)"

definition setup_text :: "string \<Rightarrow> string" where
  "setup_text cog_name =
     ''\<newline>\<newline>async def setup(bot):\<newline>    await bot.add_cog('' @ cog_name @ ''(bot))\<newline>''"

text \<open>
  One pass of the loop of \<^verbatim>\<open>verify_cog_files\<close>. Everything from \<^verbatim>\<open>open\<close> on is inside
  the \<^verbatim>\<open>try\<close>: a directory named like a plugin, a file that cannot be opened, read or
  decoded, and a failing append all leave the entry as it is.
\<close>

definition verify_item :: "env \<Rightarrow> path \<Rightarrow> string \<times> node \<Rightarrow> string \<times> node" where
  "verify_item E directory e =
     (case e of
        (item, Dir m es) \<Rightarrow> (item, Dir m es)
      | (item, File m c v) \<Rightarrow>
          if endswith item ''.py'' \<and> \<not> startswith item ''__'' then
            (if open_fails E (join directory item) \<or> read_fails E (join directory item) \<or> \<not> v
             then (item, File m c v)
             else
               let content = universal_newlines c;
                   has_cog_class = contains ''commands.Cog'' content;
                   has_setup_func = contains ''async def setup'' content
               in if \<not> has_setup_func \<and> has_cog_class then
                    (case find_cog_name (py_split ''\<newline>'' content) of
                       Inr (Some cog_name) \<Rightarrow>
                         if cog_name \<noteq> [] \<and> \<not> append_fails E (join directory item)
                         then (item, File m (c @ setup_text cog_name) v)
                         else (item, File m c v)
                     | _ \<Rightarrow> (item, File m c v))
                  else (item, File m c v))
          else (item, File m c v))"

definition verify_cog_files :: "env \<Rightarrow> path \<Rightarrow> entries \<Rightarrow> error option \<times> entries" where
  "verify_cog_files E directory es =
     (if listdir_fails E directory then (Some PermissionError, es)
      else (None, map (verify_item E directory) es))"

definition create_sample_cog :: "env \<Rightarrow> path \<Rightarrow> entries \<Rightarrow> error option \<times> entries" where
  "create_sample_cog E directory es =
     (if listdir_fails E directory then (Some PermissionError, es)
      else
        let cog_files = filter (\<lambda>f. endswith f ''.py'' \<and> \<not> startswith f ''__'') (map fst es)
        in if cog_files = []
           then (None, create_file E es ''example_commands.py'' (sample_cog_text E))
           else (None, es))"

section \<open>The pipeline\<close>

text \<open>
  \<^verbatim>\<open>main\<close>, from the directory holding the script to that directory after the run and
  the exception that ended the run, if any.
\<close>

definition main :: "env \<Rightarrow> entries \<Rightarrow> error option \<times> entries" where
  "main E fs =
     (case ensure_cogs_directory E fs of
        (Some e, fs1) \<Rightarrow> (Some e, fs1)
      | (None, fs1) \<Rightarrow>
          (case map_of fs1 ''cogs'' of
             Some (Dir m es) \<Rightarrow>
               (let cogs_dir = join (current_dir E) ''cogs'' in
                case ensure_python_files E cogs_dir es of
                  (Some e, es1) \<Rightarrow> (Some e, set_entry fs1 ''cogs'' (Dir m es1))
                | (None, es1) \<Rightarrow>
                    (case fix_permissions E cogs_dir m es1 of
                       (m2, es2) \<Rightarrow>
                         (case verify_cog_files E cogs_dir (copy_existing_cogs E es2) of
                            (Some e, es4) \<Rightarrow> (Some e, set_entry fs1 ''cogs'' (Dir m2 es4))
                          | (None, es4) \<Rightarrow>
                              (case create_sample_cog E cogs_dir es4 of
                                 (r, es5) \<Rightarrow> (r, set_entry fs1 ''cogs'' (Dir m2 es5))))))
           | _ \<Rightarrow> (Some NotADirectoryError, fs1)))"

section \<open>Particular environments\<close>

text \<open>
  The file \<^verbatim>\<open>cogs/a\<close> belongs to another user, so \<^verbatim>\<open>chmod\<close> on it fails; and the
  file \<^verbatim>\<open>cogs/notes\<close> cannot be opened for reading.
\<close>

definition foreign_file_env :: env where
  "foreign_file_env =
     (quiet ''/bot'' 18 ''U'' ''A'' ''S'') \<lparr>chmod_fails := (\<lambda>p. p = ''/bot/cogs/a'')\<rparr>"

definition unreadable_file_env :: env where
  "unreadable_file_env =
     (quiet ''/bot'' 18 ''U'' ''A'' ''S'') \<lparr>open_fails := (\<lambda>p. p = ''/bot/cogs/notes'')\<rparr>"

text \<open>A text whose markers come after 500 blanks.\<close>

definition late_text :: string where
  "late_text = replicate 500 CHR '' '' @ ''import os\<newline>def run(): pass''"


section \<open>Properties\<close>

lemma map_of_snoc:
  "map_of (es @ [(n, x)]) k =
     (case map_of es k of Some y \<Rightarrow> Some y | None \<Rightarrow> if k = n then Some x else None)"
  by (induction es) auto

lemma isdir_snoc:
  "map_of es n = None \<Longrightarrow> isdir (es @ [(n, Dir m ds)]) n"
  by (simp add: isdir_def map_of_snoc del: map_of_append)

lemma map_of_move_entry_old:
  "old \<noteq> new \<Longrightarrow> map_of (move_entry es old new) old = None"
  by (induction es) (auto simp: move_entry_def split: if_splits)

lemma makedirs_absent:
  "map_of es n = None \<Longrightarrow>
   makedirs E es n = (if mkdir_fails E (join (current_dir E) n) then (Some PermissionError, es)
                      else (None, es @ [(n, Dir (new_dir_mode E) [])]))"
  by (simp add: makedirs_def)

text \<open>
  C7. Whatever occupies the path at the start (nothing, a regular file, a directory), the
  path that \<^verbatim>\<open>ensure_cogs_directory\<close> returns is a directory when it returns. And it
  does return when neither \<^verbatim>\<open>os.rename\<close> nor \<^verbatim>\<open>mkdir\<close> fails on the path, unless the
  path is a regular file and the backup name is taken by a directory, where
  \<^verbatim>\<open>os.rename\<close> raises.
\<close>

theorem ensure_cogs_directory_is_dir:
  "(\<forall>fs'. ensure_cogs_directory E fs = (None, fs') \<longrightarrow> isdir fs' ''cogs'')
   \<and> (\<not> (isfile fs ''cogs'' \<and> isdir fs ''cogs.bak'')
        \<and> \<not> rename_fails E (join (current_dir E) ''cogs'')
        \<and> \<not> mkdir_fails E (join (current_dir E) ''cogs'')
        \<longrightarrow> fst (ensure_cogs_directory E fs) = None)"
proof (cases "map_of fs ''cogs''")
  case None
  then have "isdir (fs @ [(''cogs'', Dir (new_dir_mode E) [])]) ''cogs''"
    by (rule isdir_snoc)
  with None show ?thesis
    by (simp add: ensure_cogs_directory_def path_exists_def makedirs_absent)
next
  case (Some x)
  show ?thesis
  proof (cases x)
    case (Dir m es)
    with Some show ?thesis
      by (simp add: ensure_cogs_directory_def path_exists_def isdir_def)
  next
    case (File m c v)
    have gone: "map_of (move_entry fs ''cogs'' ''cogs.bak'') ''cogs'' = None"
      by (rule map_of_move_entry_old) simp
    show ?thesis
    proof (cases "isdir fs ''cogs.bak''")
      case True
      with Some File show ?thesis
        by (auto simp: ensure_cogs_directory_def path_exists_def isdir_def isfile_def rename_def
            split: option.splits node.splits)
    next
      case False
      then have ren: "rename fs ''cogs'' ''cogs.bak'' = Inr (move_entry fs ''cogs'' ''cogs.bak'')"
        using Some File by (auto simp: rename_def isdir_def split: option.splits node.splits)
      from gone have "isdir (move_entry fs ''cogs'' ''cogs.bak'' @ [(''cogs'', Dir (new_dir_mode E) [])]) ''cogs''"
        by (rule isdir_snoc)
      moreover have "\<not> isdir fs ''cogs''" "path_exists fs ''cogs''"
        using Some File by (simp_all add: isdir_def path_exists_def)
      ultimately show ?thesis
        using ren gone by (simp add: ensure_cogs_directory_def makedirs_absent)
    qed
  qed
qed

theorem ensure_cogs_directory_is_dir_witness:
  "fst (ensure_cogs_directory (quiet ''/bot'' 18 ''U'' ''A'' ''S'') [(''cogs'', File 420 ''x'' True)]) = None
   \<and> isdir (snd (ensure_cogs_directory (quiet ''/bot'' 18 ''U'' ''A'' ''S'')
                   [(''cogs'', File 420 ''x'' True)])) ''cogs''"
  using ensure_cogs_directory_is_dir [of "quiet ''/bot'' 18 ''U'' ''A'' ''S''"
      "[(''cogs'', File 420 ''x'' True)]"]
  by (simp add: isfile_def isdir_def prod_eq_iff quiet_def)

subsection \<open>The permission pass\<close>

lemma quiet_simps [simp]:
  "current_dir (quiet cur um ut at st) = cur"
  "umask (quiet cur um ut at st) = um"
  "chmod_fails (quiet cur um ut at st) p = False"
  "listdir_fails (quiet cur um ut at st) p = False"
  "open_fails (quiet cur um ut at st) p = False"
  "read_fails (quiet cur um ut at st) p = False"
  "rename_fails (quiet cur um ut at st) p = False"
  "mkdir_fails (quiet cur um ut at st) p = False"
  "append_fails (quiet cur um ut at st) p = False"
  "user_commands_text (quiet cur um ut at st) = ut"
  "admin_commands_text (quiet cur um ut at st) = at"
  "sample_cog_text (quiet cur um ut at st) = st"
  by (simp_all add: quiet_def)

lemma fix_all_ok:
  assumes "\<forall>q. \<not> chmod_fails E q" "\<forall>q. \<not> listdir_fails E q"
  shows "fst (fix_permissions E p m es) = mode_755 \<and> modes_ok_all (snd (fix_permissions E p m es))"
    and "fst (fix_items E p xs) = None \<and> modes_ok_all (snd (fix_items E p xs))"
  using assms
  by (induction E p m es and E p xs rule: fix_permissions_fix_items.induct)
     (auto split: prod.splits)

lemma fix_keeps_shape:
  "erase_modes_all (snd (fix_permissions E p m es)) = erase_modes_all es"
  "erase_modes_all (snd (fix_items E p xs)) = erase_modes_all xs"
  by (induction E p m es and E p xs rule: fix_permissions_fix_items.induct)
     (auto split: prod.splits)

text \<open>
  C9. When no \<^verbatim>\<open>chmod\<close> and no listing fails, \<^verbatim>\<open>fix_permissions\<close> leaves every
  directory of the tree, the plugin directory included, with mode \<^verbatim>\<open>0o755\<close> and every
  regular file in any of them with mode \<^verbatim>\<open>0o644\<close>; and the tree it leaves is the tree
  it was given, permission bits apart: the same names in the same directories, and every
  regular file with its text.
\<close>

theorem fix_permissions_normalizes:
  assumes "\<forall>q. \<not> chmod_fails E q" and "\<forall>q. \<not> listdir_fails E q"
  shows "modes_ok (Dir (fst (fix_permissions E directory m es))
                       (snd (fix_permissions E directory m es)))
       \<and> erase_modes (Dir (fst (fix_permissions E directory m es))
                          (snd (fix_permissions E directory m es)))
         = erase_modes (Dir m es)"
  using fix_all_ok(1) [OF assms] fix_keeps_shape(1) [of E directory m es] by simp

theorem fix_permissions_normalizes_witness:
  "fix_permissions (quiet ''/bot'' 18 ''U'' ''A'' ''S'') ''/bot/cogs'' 448
     [(''a'', File 384 ''x'' True), (''d'', Dir 0 [(''b'', File 0 [] False)])]
   = (493, [(''a'', File 420 ''x'' True), (''d'', Dir 493 [(''b'', File 420 [] False)])])
   \<and> modes_ok (Dir 493 [(''a'', File 420 ''x'' True), (''d'', Dir 493 [(''b'', File 420 [] False)])])
   \<and> erase_modes (Dir 493 [(''a'', File 420 ''x'' True), (''d'', Dir 493 [(''b'', File 420 [] False)])])
     = erase_modes (Dir 448 [(''a'', File 384 ''x'' True), (''d'', Dir 0 [(''b'', File 0 [] False)])])"
  using fix_permissions_normalizes [of "quiet ''/bot'' 18 ''U'' ''A'' ''S''" "''/bot/cogs''" 448
      "[(''a'', File 384 ''x'' True), (''d'', Dir 0 [(''b'', File 0 [] False)])]"]
  by (simp add: mode_755_def mode_644_def)


text \<open>
  C2. The claim is that a failing \<^verbatim>\<open>chmod\<close> on one entry never keeps the walk from the
  entry's siblings. Here \<^verbatim>\<open>chmod\<close> fails on the regular file \<^verbatim>\<open>a\<close>: the exception
  leaves the loop, and the sibling \<^verbatim>\<open>b\<close> keeps its mode \<^verbatim>\<open>0o600\<close>.
\<close>

theorem fix_permissions_skips_siblings:
  "fix_permissions foreign_file_env ''/bot/cogs'' 448
     [(''a'', File 384 ''x'' True), (''b'', File 384 ''y'' True)]
   = (493, [(''a'', File 384 ''x'' True), (''b'', File 384 ''y'' True)])"
  by code_simp

subsection \<open>Whole runs\<close>

text \<open>
  C4. The claim is that no failure on a single file ends the run. Here the file
  \<^verbatim>\<open>notes\<close> cannot be opened: \<^verbatim>\<open>ensure_python_files\<close> raises, \<^verbatim>\<open>main\<close> ends with the
  exception, and the file \<^verbatim>\<open>plugin\<close>, which looks like Python, is never renamed.
\<close>

theorem unreadable_file_ends_run:
  "main unreadable_file_env
     [(''cogs'', Dir 493 [(''notes'', File 0 ''todo'' True),
                          (''plugin'', File 420 ''import os\<newline>def run(): pass'' True)])]
   = (Some PermissionError,
      [(''cogs'', Dir 493 [(''notes'', File 0 ''todo'' True),
                           (''plugin'', File 420 ''import os\<newline>def run(): pass'' True),
                           (''__init__.py'', File 420 init_text True)])])"
  by code_simp

text \<open>
  C10. The claim is that the content of every file present before the run survives as
  a prefix of some file after it. Here \<^verbatim>\<open>x\<close> looks like Python and \<^verbatim>\<open>x.py\<close> exists:
  the rename of \<^verbatim>\<open>x\<close> replaces \<^verbatim>\<open>x.py\<close>, and the text \<^verbatim>\<open>precious\<close> is in no file
  after the run.
\<close>

theorem rename_replaces_existing_plugin:
  "main (quiet ''/bot'' 18 ''U'' ''A'' ''S'')
     [(''cogs'', Dir 493 [(''x'', File 420 ''import os\<newline>def run(): pass'' True),
                          (''x.py'', File 420 ''precious'' True)])]
   = (None,
      [(''cogs'', Dir 493 [(''x.py'', File 420 ''import os\<newline>def run(): pass'' True),
                           (''__init__.py'', File 420 init_text True),
                           (''user_commands.py'', File 420 ''U'' True),
                           (''admin_commands.py'', File 420 ''A'' True)])])"
  by code_simp

lemma verify_item_file:
  "\<exists>c'. verify_item E d (n, File m c v) = (n, File m c' v)"
  by (simp add: verify_item_def Let_def split: sum.splits option.splits)

lemma map_of_set_entry:
  "map_of (set_entry fs n x) k = (if k = n \<and> map_of fs n \<noteq> None then Some x else map_of fs k)"
  by (induction fs) (auto simp: set_entry_def)

lemma ensure_cogs_directory_dir:
  "map_of fs ''cogs'' = Some (Dir m es) \<Longrightarrow> ensure_cogs_directory E fs = (None, fs)"
  by (simp add: ensure_cogs_directory_def path_exists_def isdir_def)

text \<open>
  C6. From an empty plugin directory, one run with no failing system call ends normally
  and leaves in the directory exactly \<^verbatim>\<open>__init__.py\<close>, \<^verbatim>\<open>user_commands.py\<close> and
  \<^verbatim>\<open>admin_commands.py\<close>, all regular files; \<^verbatim>\<open>example_commands.py\<close> is not among them.
\<close>

theorem empty_directory_run:
  assumes "map_of fs ''cogs'' = Some (Dir m [])"
  shows "fst (main (quiet cur um ut at st) fs) = None \<and>
         (\<exists>ci cu ca. map_of (snd (main (quiet cur um ut at st) fs)) ''cogs'' =
            Some (Dir mode_755
              [(''__init__.py'', File mode_644 ci True),
               (''user_commands.py'', File (new_file_mode (quiet cur um ut at st)) cu True),
               (''admin_commands.py'', File (new_file_mode (quiet cur um ut at st)) ca True)]))"
proof -
  let ?Q = "quiet cur um ut at st"
  let ?d = "join cur ''cogs''"
  let ?n = "new_file_mode ?Q"
  have epf: "ensure_python_files ?Q ?d [] = (None, [(''__init__.py'', File ?n init_text True)])"
    by (simp add: ensure_python_files_def path_exists_def create_file_def startswith_def)
  have fp: "fix_permissions ?Q ?d m [(''__init__.py'', File ?n init_text True)]
            = (mode_755, [(''__init__.py'', File mode_644 init_text True)])"
    by simp
  have cp: "copy_existing_cogs ?Q [(''__init__.py'', File mode_644 init_text True)]
            = [(''__init__.py'', File mode_644 init_text True),
               (''user_commands.py'', File ?n ut True),
               (''admin_commands.py'', File ?n at True)]"
    by (simp add: copy_existing_cogs_def path_exists_def create_file_def)
  obtain cu where vu: "verify_item ?Q ?d (''user_commands.py'', File ?n ut True)
                       = (''user_commands.py'', File ?n cu True)"
    using verify_item_file by blast
  obtain ca where va: "verify_item ?Q ?d (''admin_commands.py'', File ?n at True)
                       = (''admin_commands.py'', File ?n ca True)"
    using verify_item_file by blast
  have vi: "verify_item ?Q ?d (''__init__.py'', File mode_644 init_text True)
            = (''__init__.py'', File mode_644 init_text True)"
    by (simp add: verify_item_def startswith_def)
  let ?es = "[(''__init__.py'', File mode_644 init_text True),
              (''user_commands.py'', File ?n cu True),
              (''admin_commands.py'', File ?n ca True)]"
  have vf: "verify_cog_files ?Q ?d (copy_existing_cogs ?Q [(''__init__.py'', File mode_644 init_text True)])
            = (None, ?es)"
    by (simp add: verify_cog_files_def cp vu va vi)
  have sc: "create_sample_cog ?Q ?d ?es = (None, ?es)"
    by (simp add: create_sample_cog_def startswith_def endswith_def suffix_def)
  have "main ?Q fs = (None, set_entry fs ''cogs'' (Dir mode_755 ?es))"
    using assms by (simp add: main_def ensure_cogs_directory_dir epf fp vf sc)
  then show ?thesis
    using assms by (auto simp: map_of_set_entry)
qed

theorem empty_directory_run_witness:
  "main (quiet ''/bot'' 18 ''U'' ''A'' ''S'') [(''cogs'', Dir 448 [])]
   = (None, [(''cogs'', Dir 493 [(''__init__.py'', File 420 init_text True),
                                 (''user_commands.py'', File 420 ''U'' True),
                                 (''admin_commands.py'', File 420 ''A'' True)])])"
proof -
  have run: "main (quiet ''/bot'' 18 ''U'' ''A'' ''S'') [(''cogs'', Dir 448 [])]
     = (None, [(''cogs'', Dir 493 [(''__init__.py'', File 420 init_text True),
                                   (''user_commands.py'', File 420 ''U'' True),
                                   (''admin_commands.py'', File 420 ''A'' True)])])"
    by code_simp
  have "map_of [(''cogs'', Dir 448 [])] ''cogs'' = Some (Dir 448 [])" by simp
  from empty_directory_run [OF this, of "''/bot''" 18 "''U''" "''A''" "''S''"] run
  show ?thesis by simp
qed

subsection \<open>The backup of a displaced file\<close>

lemma map_of_move_entry_new:
  "old \<noteq> new \<Longrightarrow> map_of (move_entry es old new) new = map_of es old"
  by (induction es) (auto simp: move_entry_def)

lemma main_touches_cogs_only:
  "snd (main E fs) = snd (ensure_cogs_directory E fs)
   \<or> (\<exists>x. snd (main E fs) = set_entry (snd (ensure_cogs_directory E fs)) ''cogs'' x)"
  by (auto simp: main_def Let_def split: prod.splits option.splits node.splits)

text \<open>
  C8 as stated fails when a directory already has the backup name: \<^verbatim>\<open>os.rename\<close>
  raises, the run ends, and no regular file is at \<^verbatim>\<open>cogs.bak\<close> afterwards.
\<close>

theorem backup_counterexample:
  "main (quiet ''/bot'' 18 ''U'' ''A'' ''S'')
     [(''cogs'', File 420 ''keep'' True), (''cogs.bak'', Dir 493 [])]
   = (Some IsADirectoryError, [(''cogs'', File 420 ''keep'' True), (''cogs.bak'', Dir 493 [])])
   \<and> \<not> isfile (snd (main (quiet ''/bot'' 18 ''U'' ''A'' ''S'')
                      [(''cogs'', File 420 ''keep'' True), (''cogs.bak'', Dir 493 [])])) ''cogs.bak''"
  by code_simp

text \<open>
  C8, amended. Let a regular file occupy the path of the plugin directory. When no
  directory has the backup name and \<^verbatim>\<open>os.rename\<close> does not fail on the path, a regular
  file with the same content (and mode) is at \<^verbatim>\<open>cogs.bak\<close> after the run. When a
  directory has the backup name or \<^verbatim>\<open>os.rename\<close> fails, the run ends with the exception
  and the filesystem is as it was: the file is still in place.
\<close>

theorem backup_keeps_displaced_file:
  assumes "map_of fs ''cogs'' = Some (File m c v)"
  shows "(\<not> isdir fs ''cogs.bak'' \<and> \<not> rename_fails E (join (current_dir E) ''cogs'')
            \<longrightarrow> map_of (snd (main E fs)) ''cogs.bak'' = Some (File m c v))
       \<and> (isdir fs ''cogs.bak'' \<or> rename_fails E (join (current_dir E) ''cogs'')
            \<longrightarrow> fst (main E fs) \<noteq> None \<and> snd (main E fs) = fs)"
proof (cases "rename_fails E (join (current_dir E) ''cogs'')")
  case True
  then have "ensure_cogs_directory E fs = (Some PermissionError, fs)"
    using assms by (simp add: ensure_cogs_directory_def path_exists_def isdir_def)
  with True show ?thesis by (simp add: main_def)
next
  case quiet: False
  show ?thesis
  proof (cases "isdir fs ''cogs.bak''")
    case True
    then have "rename fs ''cogs'' ''cogs.bak'' = Inl IsADirectoryError"
      using assms by (auto simp: rename_def isdir_def split: option.splits node.splits)
    then have "ensure_cogs_directory E fs = (Some IsADirectoryError, fs)"
      using assms quiet by (simp add: ensure_cogs_directory_def path_exists_def isdir_def)
    with True show ?thesis by (simp add: main_def)
  next
    case False
    let ?fs1 = "move_entry fs ''cogs'' ''cogs.bak''"
    have ren: "rename fs ''cogs'' ''cogs.bak'' = Inr ?fs1"
      using False assms by (auto simp: rename_def isdir_def split: option.splits node.splits)
    have gone: "map_of ?fs1 ''cogs'' = None"
      by (rule map_of_move_entry_old) simp
    have ecd: "snd (ensure_cogs_directory E fs) = ?fs1
               \<or> snd (ensure_cogs_directory E fs) = ?fs1 @ [(''cogs'', Dir (new_dir_mode E) [])]"
      using assms ren gone quiet
      by (simp add: ensure_cogs_directory_def path_exists_def isdir_def makedirs_absent)
    have "map_of ?fs1 ''cogs.bak'' = Some (File m c v)"
      using assms by (simp add: map_of_move_entry_new)
    with ecd have bak: "map_of (snd (ensure_cogs_directory E fs)) ''cogs.bak'' = Some (File m c v)"
      by (auto simp: map_of_snoc simp del: map_of_append)
    from main_touches_cogs_only [of E fs] bak have
      "map_of (snd (main E fs)) ''cogs.bak'' = Some (File m c v)"
      by (auto simp: map_of_set_entry)
    with False quiet show ?thesis by simp
  qed
qed

theorem backup_keeps_displaced_file_witness:
  "map_of (snd (main (quiet ''/bot'' 18 ''U'' ''A'' ''S'')
                  [(''cogs'', File 420 ''keep'' True), (''cogs.bak'', File 384 ''old'' True)]))
          ''cogs.bak'' = Some (File 420 ''keep'' True)
   \<and> fst (main (quiet ''/bot'' 18 ''U'' ''A'' ''S'')
        [(''cogs'', File 420 ''keep'' True), (''cogs.bak'', Dir 493 [])]) \<noteq> None
   \<and> snd (main (quiet ''/bot'' 18 ''U'' ''A'' ''S'')
        [(''cogs'', File 420 ''keep'' True), (''cogs.bak'', Dir 493 [])])
     = [(''cogs'', File 420 ''keep'' True), (''cogs.bak'', Dir 493 [])]"
  using backup_keeps_displaced_file [of "[(''cogs'', File 420 ''keep'' True), (''cogs.bak'', File 384 ''old'' True)]"
      420 "''keep''" True "quiet ''/bot'' 18 ''U'' ''A'' ''S''"]
    backup_keeps_displaced_file [of "[(''cogs'', File 420 ''keep'' True), (''cogs.bak'', Dir 493 [])]"
      420 "''keep''" True "quiet ''/bot'' 18 ''U'' ''A'' ''S''"]
  by (simp add: isdir_def)

subsection \<open>The classifier\<close>

lemma map_of_move_entry_other:
  "k \<noteq> old \<Longrightarrow> k \<noteq> new \<Longrightarrow> map_of (move_entry es old new) k = map_of es k"
  by (induction es) (auto simp: move_entry_def)

lemma endswith_py [simp]: "endswith (i @ ''.py'') ''.py''"
  by (simp add: endswith_def suffix_def)

lemma loop_quiet_Cons:
  "ensure_python_loop (quiet cur um ut at st) d (i # items) es =
     ensure_python_loop (quiet cur um ut at st) d items
       (if classified es i then move_entry es i (i @ ''.py'') else es)"
  by (auto simp: classified_def rename_def isdir_def split: option.splits node.splits)

lemma loop_quiet_ok: "fst (ensure_python_loop (quiet cur um ut at st) d items es) = None"
  by (induction items arbitrary: es) (simp_all add: loop_quiet_Cons del: ensure_python_loop.simps(2))

lemma loop_keeps_renamed:
  assumes "\<not> endswith F ''.py''"
  shows "map_of es (F @ ''.py'') = Some x \<and> map_of es F = None \<Longrightarrow>
         map_of (snd (ensure_python_loop (quiet cur um ut at st) d items es)) (F @ ''.py'') = Some x
         \<and> map_of (snd (ensure_python_loop (quiet cur um ut at st) d items es)) F = None"
proof (induction items arbitrary: es)
  case Nil
  then show ?case by simp
next
  case (Cons i items)
  show ?case
  proof (cases "classified es i")
    case False
    with Cons show ?thesis by (simp add: loop_quiet_Cons del: ensure_python_loop.simps(2))
  next
    case True
    then have ne: "i \<noteq> F" "i \<noteq> F @ ''.py''"
      using Cons.prems by (auto simp: classified_def split: option.splits node.splits)
    have "F \<noteq> i @ ''.py''" using assms by auto
    with ne Cons.prems have
      "map_of (move_entry es i (i @ ''.py'')) (F @ ''.py'') = Some x
       \<and> map_of (move_entry es i (i @ ''.py'')) F = None"
      by (simp add: map_of_move_entry_other)
    from Cons.IH [OF this] True show ?thesis
      by (simp add: loop_quiet_Cons del: ensure_python_loop.simps(2))
  qed
qed

lemma loop_renames:
  assumes "\<not> endswith F ''.py''"
  shows "F \<in> set items \<Longrightarrow> map_of es F = Some (File m c v) \<Longrightarrow> classified es F \<Longrightarrow>
         map_of (snd (ensure_python_loop (quiet cur um ut at st) d items es)) (F @ ''.py'')
           = Some (File m c v)
         \<and> map_of (snd (ensure_python_loop (quiet cur um ut at st) d items es)) F = None"
proof (induction items arbitrary: es)
  case Nil
  then show ?case by simp
next
  case (Cons i items)
  show ?case
  proof (cases "i = F")
    case True
    have "map_of (move_entry es F (F @ ''.py'')) (F @ ''.py'') = Some (File m c v)
          \<and> map_of (move_entry es F (F @ ''.py'')) F = None"
      using Cons.prems by (simp add: map_of_move_entry_new map_of_move_entry_old)
    from loop_keeps_renamed [OF assms this] True Cons.prems show ?thesis
      by (simp add: loop_quiet_Cons del: ensure_python_loop.simps(2))
  next
    case False
    then have inr: "F \<in> set items" using Cons.prems by simp
    show ?thesis
    proof (cases "classified es i")
      case False
      with Cons.IH [OF inr Cons.prems(2) Cons.prems(3)] show ?thesis
        by (simp add: loop_quiet_Cons del: ensure_python_loop.simps(2))
    next
      case True
      let ?es1 = "move_entry es i (i @ ''.py'')"
      have n1: "F \<noteq> i @ ''.py''" using assms by auto
      have n2: "F @ ''.py'' \<noteq> i @ ''.py''" using \<open>i \<noteq> F\<close> by simp
      have n3: "F @ ''.py'' \<noteq> i"
        using True by (auto simp: classified_def split: option.splits node.splits)
      have a: "map_of ?es1 F = Some (File m c v)"
        using Cons.prems \<open>i \<noteq> F\<close> n1 by (simp add: map_of_move_entry_other)
      have "map_of ?es1 (F @ ''.py'') = map_of es (F @ ''.py'')"
        using n2 n3 by (simp add: map_of_move_entry_other)
      then have b: "classified ?es1 F"
        using Cons.prems a by (simp add: classified_def isdir_def)
      from Cons.IH [OF inr a b] True show ?thesis
        by (simp add: loop_quiet_Cons del: ensure_python_loop.simps(2))
    qed
  qed
qed

lemma contains_append: "contains p ys \<Longrightarrow> contains p (xs @ ys)"
  by (induction xs) auto

lemma late_not_python: "\<not> looks_like_python late_text"
  unfolding late_text_def by code_simp

lemma late_markers: "contains ''import'' late_text \<and> contains ''def'' late_text"
  unfolding late_text_def by (intro conjI contains_append; code_simp)

lemma name_tests:
  "\<not> startswith ''late'' ''__''" "\<not> endswith ''late'' ''.py''"
  "startswith ''__init__.py'' ''__''"
  by code_simp+

text \<open>
  C3 as stated fails in three ways: a name that starts with \<^verbatim>\<open>__\<close> is never looked at;
  only the first 500 characters are read, so markers that come later do not count; and a
  directory that already has the new name makes \<^verbatim>\<open>os.rename\<close> raise, which is caught. In
  all three runs below the file keeps its name.
\<close>

theorem classifier_counterexample:
  "ensure_python_files (quiet ''/bot'' 18 ''U'' ''A'' ''S'') ''/bot/cogs''
     [(''__main'', File 420 ''import os\<newline>def run(): pass'' True)]
   = (None, [(''__main'', File 420 ''import os\<newline>def run(): pass'' True),
             (''__init__.py'', File 420 init_text True)])
   \<and> contains ''import'' late_text \<and> contains ''def'' late_text
   \<and> ensure_python_files (quiet ''/bot'' 18 ''U'' ''A'' ''S'') ''/bot/cogs''
       [(''late'', File 420 late_text True)]
     = (None, [(''late'', File 420 late_text True), (''__init__.py'', File 420 init_text True)])
   \<and> ensure_python_files (quiet ''/bot'' 18 ''U'' ''A'' ''S'') ''/bot/cogs''
       [(''x'', File 420 ''import os\<newline>def run(): pass'' True), (''x.py'', Dir 493 [])]
     = (None, [(''x'', File 420 ''import os\<newline>def run(): pass'' True), (''x.py'', Dir 493 []),
               (''__init__.py'', File 420 init_text True)])"
proof -
  have dunder: "ensure_python_files (quiet ''/bot'' 18 ''U'' ''A'' ''S'') ''/bot/cogs''
     [(''__main'', File 420 ''import os\<newline>def run(): pass'' True)]
   = (None, [(''__main'', File 420 ''import os\<newline>def run(): pass'' True),
             (''__init__.py'', File 420 init_text True)])"
    by code_simp
  have blocked: "ensure_python_files (quiet ''/bot'' 18 ''U'' ''A'' ''S'') ''/bot/cogs''
       [(''x'', File 420 ''import os\<newline>def run(): pass'' True), (''x.py'', Dir 493 [])]
     = (None, [(''x'', File 420 ''import os\<newline>def run(): pass'' True), (''x.py'', Dir 493 []),
               (''__init__.py'', File 420 init_text True)])"
    by code_simp
  have late: "ensure_python_files (quiet ''/bot'' 18 ''U'' ''A'' ''S'') ''/bot/cogs''
       [(''late'', File 420 late_text True)]
     = (None, [(''late'', File 420 late_text True), (''__init__.py'', File 420 init_text True)])"
    by (simp add: ensure_python_files_def path_exists_def create_file_def quiet_def
        new_file_mode_def late_not_python name_tests)
  from dunder blocked late late_markers show ?thesis by simp
qed

text \<open>
  C3, amended. Let \<open>F\<close> be a regular file directly in the plugin directory whose name
  neither starts with \<^verbatim>\<open>__\<close> nor ends in \<^verbatim>\<open>.py\<close>, whose first 500 characters contain
  \<^verbatim>\<open>import\<close> and one of \<^verbatim>\<open>def\<close> and \<^verbatim>\<open>class\<close>, and let no directory be named \<open>F\<close>
  followed by \<^verbatim>\<open>.py\<close>. When no system call fails, \<^verbatim>\<open>ensure_python_files\<close> returns
  normally, and afterwards the file, with its content and mode, has the name \<open>F\<close> followed
  by \<^verbatim>\<open>.py\<close>, and nothing is named \<open>F\<close>.
\<close>

theorem classifier_renames:
  assumes "map_of es F = Some (File m c v)"
    and "\<not> startswith F ''__''" and "\<not> endswith F ''.py''"
    and "looks_like_python c"
    and "\<not> isdir es (F @ ''.py'')"
  shows "fst (ensure_python_files (quiet cur um ut at st) d es) = None
       \<and> map_of (snd (ensure_python_files (quiet cur um ut at st) d es)) (F @ ''.py'')
           = Some (File m c v)
       \<and> map_of (snd (ensure_python_files (quiet cur um ut at st) d es)) F = None"
proof -
  let ?Q = "quiet cur um ut at st"
  let ?es1 = "if \<not> path_exists es ''__init__.py''
              then create_file ?Q es ''__init__.py'' init_text else es"
  have f: "map_of ?es1 F = Some (File m c v)"
    using assms(1) by (simp add: create_file_def map_of_snoc del: map_of_append)
  have "\<not> isdir ?es1 (F @ ''.py'')"
    using assms(5) by (auto simp: create_file_def isdir_def map_of_snoc
        split: option.splits node.splits simp del: map_of_append)
  with f assms have cl: "classified ?es1 F" by (simp add: classified_def)
  from f have "F \<in> set (map fst ?es1)"
    by (metis map_of_eq_None_iff option.distinct(1) set_map)
  have "ensure_python_files ?Q d es = ensure_python_loop ?Q d (map fst ?es1) ?es1"
    by (simp add: ensure_python_files_def Let_def)
  with loop_renames [OF assms(3) \<open>F \<in> set (map fst ?es1)\<close> f cl, of cur um ut at st d]
  show ?thesis
    by (simp only: loop_quiet_ok simp_thms)
qed

theorem classifier_renames_witness:
  "map_of (snd (ensure_python_files (quiet ''/bot'' 18 ''U'' ''A'' ''S'') ''/bot/cogs''
            [(''weird_script'', File 384 ''import os\<newline>def run():\<newline>    pass'' True)]))
     ''weird_script.py'' = Some (File 384 ''import os\<newline>def run():\<newline>    pass'' True)
   \<and> map_of (snd (ensure_python_files (quiet ''/bot'' 18 ''U'' ''A'' ''S'') ''/bot/cogs''
            [(''weird_script'', File 384 ''import os\<newline>def run():\<newline>    pass'' True)]))
     ''weird_script'' = None"
proof -
  let ?c = "''import os\<newline>def run():\<newline>    pass''"
  let ?es = "[(''weird_script'', File 384 ?c True)]"
  have h1: "map_of ?es ''weird_script'' = Some (File 384 ?c True)" by simp
  have h2: "\<not> startswith ''weird_script'' ''__''" by code_simp
  have h3: "\<not> endswith ''weird_script'' ''.py''" by code_simp
  have h4: "looks_like_python ?c" by code_simp
  have h5: "\<not> isdir ?es (''weird_script'' @ ''.py'')" by code_simp
  from classifier_renames [OF h1 h2 h3 h4 h5, of "''/bot''" 18 "''U''" "''A''" "''S''" "''/bot/cogs''"]
  show ?thesis by simp
qed

subsection \<open>The linter\<close>























subsection \<open>Two runs in a row\<close>













































end
